theory Spec2Isabelle
  imports Main
begin

section \<open>Data model (types.ts)\<close>

text \<open>
  The two interfaces of \<^verbatim>\<open>types.ts\<close>. An optional field (\<^verbatim>\<open>phone?\<close>,
  \<^verbatim>\<open>category?\<close>) is an \<open>option\<close>. A JavaScript string is a \<open>string\<close>; two
  strings are \<^verbatim>\<open>===\<close> exactly when they are equal as character sequences, and
  \<^verbatim>\<open>.length\<close> is the number of elements of the sequence.
\<close>

record Business =
  name :: string
  address :: string
  phone :: "string option"
  category :: "string option"

record Source =
  uri :: string
  title :: string

section \<open>The component state (App.tsx, lines 12-20)\<close>

text \<open>
  One field for each \<^verbatim>\<open>useState\<close> cell of \<^verbatim>\<open>App\<close>. \<^verbatim>\<open>string | null\<close>
  is \<open>string option\<close>. A call of a setter is a record update; the calls of one
  handler are applied in program order.
\<close>

record AppState =
  pincode :: string
  area :: string
  businesses :: "Business list"
  sources :: "Source list"
  isLoading :: bool
  isMoreLoading :: bool
  error :: "string option"
  hasSearched :: bool
  hasMore :: bool

section \<open>The external capability\<close>

text \<open>
  \<^verbatim>\<open>fetchBusinessesByPincode(pincode, area, excludeNames?)\<close> is imported from
  \<^verbatim>\<open>services/geminiService.ts\<close> and is a parameter of both handlers here. A
  request is the argument triple (the third argument is absent in a search). The
  awaited promise either resolves to the two lists or rejects with a thrown value;
  the \<^verbatim>\<open>catch\<close> blocks only ask whether the value is an \<^verbatim>\<open>Error\<close> instance and,
  if so, read its \<^verbatim>\<open>message\<close>.
\<close>

type_synonym request = "string \<times> string \<times> string list option"

datatype thrown = ErrorInstance string | NotAnError

type_synonym response = "thrown + (Business list \<times> Source list)"

type_synonym capability = "request \<Rightarrow> response"

text \<open>
  A handler returns the state it leaves behind together with the requests it
  issued, each paired with the state in force when it was issued.
\<close>

type_synonym outcome = "AppState \<times> (request \<times> AppState) list"

section \<open>handleSearch (App.tsx, lines 22-53)\<close>

text \<open>The body shared by both \<^verbatim>\<open>catch\<close> blocks (lines 45-49 and 83-87).\<close>

fun catchMessage :: "thrown \<Rightarrow> string" where
  "catchMessage (ErrorInstance m) = m"
| "catchMessage NotAnError = ''An unknown error occurred.''"

text \<open>Lines 28-33: the setter calls made once the pincode is accepted.\<close>

definition searchAccepted :: "AppState \<Rightarrow> AppState" where
  "searchAccepted st =
     st\<lparr>isLoading := True, error := None, businesses := [], sources := [],
        hasSearched := True, hasMore := False\<rparr>"

text \<open>Lines 35-52: \<^verbatim>\<open>try\<close>, \<^verbatim>\<open>catch\<close> and \<^verbatim>\<open>finally\<close> around the awaited response.\<close>

fun searchSettled :: "AppState \<Rightarrow> response \<Rightarrow> AppState" where
  "searchSettled st (Inr (results, newSources)) =
     (let st1 = st\<lparr>businesses := results, sources := newSources\<rparr>;
          st2 = (if length results > 0 \<and> length results = 30
                 then st1\<lparr>hasMore := True\<rparr> else st1\<lparr>hasMore := False\<rparr>)
      in st2\<lparr>isLoading := False\<rparr>)"
| "searchSettled st (Inl e) =
     (st\<lparr>error := Some (catchMessage e)\<rparr>)\<lparr>isLoading := False\<rparr>"

definition handleSearch :: "capability \<Rightarrow> AppState \<Rightarrow> outcome" where
  "handleSearch fetchBusinessesByPincode st =
     (if length (pincode st) \<noteq> 6
      then (st\<lparr>error := Some ''Please enter a valid 6-digit pincode.''\<rparr>, [])
      else
        let st0 = searchAccepted st;
            req = (pincode st, area st, None)
        in (searchSettled st0 (fetchBusinessesByPincode req), [(req, st0)]))"

section \<open>handleLoadMore (App.tsx, lines 55-92)\<close>

subsection \<open>The JavaScript Map of line 74\<close>

text \<open>
  A \<^verbatim>\<open>Map\<close> is an association list in insertion order. \<^verbatim>\<open>set\<close> on a key that
  is present replaces the value and leaves the entry where it is; on a new key it
  adds the entry at the end. \<^verbatim>\<open>new Map(entries)\<close> calls \<^verbatim>\<open>set\<close> for each entry
  from left to right, and \<^verbatim>\<open>values()\<close> lists the values in insertion order.
\<close>

type_synonym ('k, 'v) jsmap = "('k \<times> 'v) list"

fun Map_set :: "('k, 'v) jsmap \<Rightarrow> 'k \<Rightarrow> 'v \<Rightarrow> ('k, 'v) jsmap" where
  "Map_set [] k v = [(k, v)]"
| "Map_set ((k', v') # es) k v =
     (if k' = k then (k', v) # es else (k', v') # Map_set es k v)"

definition new_Map :: "('k \<times> 'v) list \<Rightarrow> ('k, 'v) jsmap" where
  "new_Map entries = foldl (\<lambda>m (k, v). Map_set m k v) [] entries"

definition Map_values :: "('k, 'v) jsmap \<Rightarrow> 'v list" where
  "Map_values m = map snd m"

text \<open>Lines 73-74: the updater passed to \<^verbatim>\<open>setSources\<close>.\<close>

definition mergeSources :: "Source list \<Rightarrow> Source list \<Rightarrow> Source list" where
  "mergeSources prev newSources =
     (let allSources = prev @ newSources
      in Map_values (new_Map (map (\<lambda>s. (uri s, s)) allSources)))"

subsection \<open>The handler\<close>

text \<open>Lines 63-65: the filter against the businesses the handler closed over.\<close>

definition uniqueNewResults :: "Business list \<Rightarrow> Business list \<Rightarrow> Business list" where
  "uniqueNewResults existing newResults =
     filter (\<lambda>newBusiness.
               \<not> list_ex (\<lambda>existingBusiness. name existingBusiness = name newBusiness) existing)
            newResults"

text \<open>Lines 56-57: the setter calls made before the request.\<close>

definition loadMoreEntered :: "AppState \<Rightarrow> AppState" where
  "loadMoreEntered st = st\<lparr>isMoreLoading := True, error := None\<rparr>"

text \<open>
  Lines 59-91. The first argument is the businesses list the handler closed over
  (used by the filter); the updaters of \<^verbatim>\<open>setBusinesses\<close> and \<^verbatim>\<open>setSources\<close>
  read the state in force when they run.
\<close>

fun loadMoreSettled :: "Business list \<Rightarrow> AppState \<Rightarrow> response \<Rightarrow> AppState" where
  "loadMoreSettled closed st (Inr (newResults, newSources)) =
     (let unique = uniqueNewResults closed newResults;
          st1 = (if length unique > 0
                 then st\<lparr>businesses := businesses st @ unique\<rparr> else st);
          st2 = (if length newSources > 0
                 then st1\<lparr>sources := mergeSources (sources st1) newSources\<rparr> else st1);
          st3 = (if length newResults < 30 then st2\<lparr>hasMore := False\<rparr> else st2)
      in st3\<lparr>isMoreLoading := False\<rparr>)"
| "loadMoreSettled closed st (Inl e) =
     (st\<lparr>error := Some (catchMessage e), hasMore := False\<rparr>)\<lparr>isMoreLoading := False\<rparr>"

definition handleLoadMore :: "capability \<Rightarrow> AppState \<Rightarrow> outcome" where
  "handleLoadMore fetchBusinessesByPincode st =
     (let st0 = loadMoreEntered st;
          existingNames = map name (businesses st);
          req = (pincode st, area st, Some existingNames)
      in (loadMoreSettled (businesses st) st0 (fetchBusinessesByPincode req), [(req, st0)]))"

section \<open>A session\<close>

text \<open>
  What can happen to the state between two renders: the form calls one of the two
  setters it is given (\<^verbatim>\<open>setPincode\<close>, \<^verbatim>\<open>setArea\<close>), or one of the two handlers
  runs. No other setter leaves the component.
\<close>

datatype event = SetPincode string | SetArea string | Search | LoadMore

fun step :: "capability \<Rightarrow> event \<Rightarrow> AppState \<Rightarrow> AppState" where
  "step f (SetPincode p) st = st\<lparr>pincode := p\<rparr>"
| "step f (SetArea a) st = st\<lparr>area := a\<rparr>"
| "step f Search st = fst (handleSearch f st)"
| "step f LoadMore st = fst (handleLoadMore f st)"

section \<open>Concrete values used in the examples\<close>

definition business :: "string \<Rightarrow> Business" where
  "business n = \<lparr>name = n, address = '''', phone = None, category = None\<rparr>"

definition source :: "string \<Rightarrow> string \<Rightarrow> Source" where
  "source u t = \<lparr>uri = u, title = t\<rparr>"

definition initialState :: AppState where
  "initialState =
     \<lparr>pincode = '''', area = '''', businesses = [], sources = [], isLoading = False,
      isMoreLoading = False, error = None, hasSearched = False, hasMore = False\<rparr>"

definition typed110001 :: AppState where
  "typed110001 = initialState\<lparr>pincode := ''110001''\<rparr>"

text \<open>A page of \<open>n\<close> businesses with pairwise different names.\<close>

definition page :: "nat \<Rightarrow> Business list" where
  "page n = map (\<lambda>i. business (replicate (Suc i) CHR ''b'')) [0..<n]"

text \<open>A collaborator that answers every request with the same full page.\<close>

definition fullPage :: capability where
  "fullPage req = Inr (page 30, [])"

text \<open>A collaborator that repeats a business and a source uri within one answer.\<close>

definition repeating :: capability where
  "repeating req =
     Inr ([business ''C'', business ''C''], [source ''x'' ''one'', source ''x'' ''two''])"

text \<open>The two collaborators that fail: with an \<^verbatim>\<open>Error\<close>, and with another value.\<close>

definition failingWithError :: capability where
  "failingWithError req = Inl (ErrorInstance ''quota exceeded'')"

definition failingOtherwise :: capability where
  "failingOtherwise req = Inl NotAnError"

text \<open>The state and the answer of the two examples of section 8 of the specification.\<close>

definition loadedAB :: AppState where
  "loadedAB =
     \<lparr>pincode = ''110001'', area = [],
      businesses = [business ''A'', business ''B''],
      sources = [source ''x'' ''old''], isLoading = False,
      isMoreLoading = False, error = None, hasSearched = True, hasMore = True\<rparr>"

definition answerBC :: capability where
  "answerBC req =
     Inr ([business ''B'', business ''C''], [source ''x'' ''new'', source ''y'' ''y''])"

text \<open>The state after a search that was answered with a full page.\<close>

definition afterFullPage :: AppState where
  "afterFullPage = fst (handleSearch fullPage typed110001)"

text \<open>
  With those results on the screen the user shortens the pincode and searches
  again: the search is rejected and records its error beside the results.
\<close>

definition staleError :: AppState where
  "staleError = step fullPage Search (step fullPage (SetPincode ''11000'') afterFullPage)"

text \<open>The state of the examples after a load more that failed.\<close>

definition afterFailure :: AppState where
  "afterFailure = fst (handleLoadMore failingWithError loadedAB)"

section \<open>Properties of the Map\<close>

lemma keys_Map_set:
  "map fst (Map_set m k v) = (if k \<in> fst ` set m then map fst m else map fst m @ [k])"
  by (induction m) force+

lemma map_of_Map_set: "map_of (Map_set m k v) = (map_of m)(k \<mapsto> v)"
  by (induction m) (auto simp: fun_eq_iff)

lemma new_Map_snoc: "new_Map (es @ [(k, v)]) = Map_set (new_Map es) k v"
  by (simp add: new_Map_def)

lemma new_Map_Nil: "new_Map [] = []"
  by (simp add: new_Map_def)

text \<open>
  The keys of the map are the keys of the entries, each at the place of its first
  occurrence: \<open>remdups\<close> keeps the last occurrence of every element, so between
  the two reversals it keeps the first.
\<close>

lemma keys_new_Map: "map fst (new_Map es) = rev (remdups (rev (map fst es)))"
proof (induction es rule: rev_induct)
  case Nil
  show ?case by (simp add: new_Map_Nil)
next
  case (snoc e es)
  obtain k v where e: "e = (k, v)" by (cases e)
  have "set (map fst (new_Map es)) = set (map fst es)"
    using snoc.IH by simp
  then have "fst ` set (new_Map es) = fst ` set es"
    by simp
  then show ?case
    using snoc.IH by (simp add: e new_Map_snoc keys_Map_set)
qed

text \<open>The value under a key is the one of the last entry with that key.\<close>

lemma map_of_new_Map: "map_of (new_Map es) = map_of (rev es)"
proof (induction es rule: rev_induct)
  case Nil
  show ?case by (simp add: new_Map_Nil)
next
  case (snoc e es)
  obtain k v where e: "e = (k, v)" by (cases e)
  show ?case
    using snoc.IH by (simp add: e new_Map_snoc map_of_Map_set)
qed

lemma map_of_keyed: "map_of (map (\<lambda>s. (g s, s)) xs) k = find (\<lambda>t. g t = k) xs"
  by (induction xs) auto

lemma find_keyed: "find (\<lambda>t. g t = k) xs = Some s \<Longrightarrow> g s = k"
  by (induction xs) (auto split: if_splits)

lemma new_Map_entry:
  assumes "(k, s) \<in> set (new_Map (map (\<lambda>s. (g s, s)) xs))"
  shows "g s = k \<and> find (\<lambda>t. g t = k) (rev xs) = Some s"
proof -
  have "distinct (map fst (new_Map (map (\<lambda>s. (g s, s)) xs)))"
    by (simp add: keys_new_Map)
  with assms have "map_of (new_Map (map (\<lambda>s. (g s, s)) xs)) k = Some s"
    by simp
  then have "map_of (map (\<lambda>s. (g s, s)) (rev xs)) k = Some s"
    by (simp add: map_of_new_Map rev_map)
  then have f: "find (\<lambda>t. g t = k) (rev xs) = Some s"
    by (simp add: map_of_keyed)
  then have "g s = k"
    by (rule find_keyed)
  with f show ?thesis by simp
qed

lemma uri_mergeSources:
  "map uri (mergeSources prev new) = rev (remdups (rev (map uri (prev @ new))))"
proof -
  define m where "m = new_Map (map (\<lambda>s. (uri s, s)) (prev @ new))"
  have "uri (snd e) = fst e" if "e \<in> set m" for e
    using that new_Map_entry [of "fst e" "snd e" uri "prev @ new"] by (simp add: m_def)
  then have "map (\<lambda>e. uri (snd e)) m = map fst m"
    by (intro map_cong refl)
  moreover have "map fst m = rev (remdups (rev (map uri (prev @ new))))"
    unfolding m_def keys_new_Map by (simp only: map_map comp_def fst_conv)
  moreover have "map uri (mergeSources prev new) = map (\<lambda>e. uri (snd e)) m"
    unfolding mergeSources_def Map_values_def Let_def m_def by (simp only: map_map comp_def)
  ultimately show ?thesis by simp
qed

lemma last_mergeSources:
  assumes "s \<in> set (mergeSources prev new)"
  shows "find (\<lambda>t. uri t = uri s) (rev (prev @ new)) = Some s"
proof -
  from assms obtain k where "(k, s) \<in> set (new_Map (map (\<lambda>s. (uri s, s)) (prev @ new)))"
    by (auto simp: mergeSources_def Map_values_def)
  then show ?thesis
    using new_Map_entry [of k s uri "prev @ new"] by simp
qed

section \<open>Properties of the filter and of the examples\<close>

lemma length_page: "length (page n) = n"
  by (simp add: page_def)

lemma uniqueNewResults_iff:
  "uniqueNewResults existing newResults =
     filter (\<lambda>b. name b \<notin> name ` set existing) newResults"
  unfolding uniqueNewResults_def
  by (rule filter_cong) (auto simp: list_ex_iff image_iff)

lemma uniqueNewResults_self: "uniqueNewResults xs xs = []"
  by (simp add: uniqueNewResults_iff)

section \<open>The search\<close>

text \<open>
  Claim C2. For every pincode whose length is not exactly 6, the search issues no
  request to the external capability (the list of requests is empty, whatever the
  capability is) and leaves the state as it was except for the error, which becomes
  the validation message "Please enter a valid 6-digit pincode.".
\<close>

theorem search_rejects_other_lengths:
  assumes "length (pincode st) \<noteq> 6"
  shows "handleSearch f st = (st\<lparr>error := Some ''Please enter a valid 6-digit pincode.''\<rparr>, [])"
  using assms by (simp add: handleSearch_def)

theorem search_rejects_other_lengths_witness:
  "length (pincode (initialState\<lparr>pincode := ''11000''\<rparr>)) \<noteq> 6 \<and>
   handleSearch fullPage (initialState\<lparr>pincode := ''11000''\<rparr>) =
     (initialState\<lparr>pincode := ''11000'',
                    error := Some ''Please enter a valid 6-digit pincode.''\<rparr>, [])"
  using search_rejects_other_lengths [of "initialState\<lparr>pincode := ''11000''\<rparr>" fullPage]
  by simp

text \<open>
  Claim C4. After every successful initial search (the pincode has length 6 and the
  capability resolves), \<open>hasMore\<close> is true exactly when the number of returned
  businesses is 30; every other count, 0 and 12 among them, leaves it false.
\<close>

theorem search_hasMore_iff_30:
  assumes "length (pincode st) = 6"
    and "f (pincode st, area st, None) = Inr (results, newSources)"
  shows "hasMore (fst (handleSearch f st)) = (length results = 30)"
  using assms by (simp add: handleSearch_def Let_def)

theorem search_hasMore_iff_30_witness:
  "length (pincode typed110001) = 6 \<and>
   fullPage (pincode typed110001, area typed110001, None) = Inr (page 30, []) \<and>
   hasMore (fst (handleSearch fullPage typed110001))"
  using search_hasMore_iff_30 [of typed110001 fullPage "page 30" "[]"]
  by (simp add: typed110001_def initialState_def fullPage_def length_page)

section \<open>Load more\<close>

text \<open>
  Claim C3. For every current businesses sequence and every returned sequence, a
  load more that succeeds leaves the current sequence followed by exactly those
  returned businesses whose name is the name of no current business, in the order
  in which they were returned. The witness is the example of the claim: A, B and
  the answer B, C give A, B, C.
\<close>

theorem loadMore_appends_unseen:
  assumes "f (pincode st, area st, Some (map name (businesses st))) = Inr (returned, newSources)"
  shows "businesses (fst (handleLoadMore f st)) =
           businesses st @ filter (\<lambda>b. name b \<notin> name ` set (businesses st)) returned"
  using assms
  by (simp add: handleLoadMore_def Let_def loadMoreEntered_def uniqueNewResults_iff)

theorem loadMore_appends_unseen_witness:
  "answerBC (pincode loadedAB, area loadedAB, Some (map name (businesses loadedAB))) =
     Inr ([business ''B'', business ''C''], [source ''x'' ''new'', source ''y'' ''y'']) \<and>
   businesses loadedAB = [business ''A'', business ''B''] \<and>
   businesses (fst (handleLoadMore answerBC loadedAB)) =
     [business ''A'', business ''B'', business ''C'']"
  using loadMore_appends_unseen [of answerBC loadedAB "[business ''B'', business ''C'']"
      "[source ''x'' ''new'', source ''y'' ''y'']"]
  by (simp add: answerBC_def loadedAB_def business_def)

text \<open>
  Claim C7. When the capability throws during a load more, the error becomes the
  message of the thrown value if that is an \<^verbatim>\<open>Error\<close> and "An unknown error
  occurred." otherwise, \<open>hasMore\<close> becomes false, and the businesses and the
  sources stay as they were.
\<close>

theorem loadMore_failure:
  assumes "f (pincode st, area st, Some (map name (businesses st))) = Inl e"
  shows "error (fst (handleLoadMore f st)) =
           Some (case e of ErrorInstance m \<Rightarrow> m | NotAnError \<Rightarrow> ''An unknown error occurred.'') \<and>
         hasMore (fst (handleLoadMore f st)) = False \<and>
         businesses (fst (handleLoadMore f st)) = businesses st \<and>
         sources (fst (handleLoadMore f st)) = sources st"
  using assms
  by (cases e) (simp_all add: handleLoadMore_def Let_def loadMoreEntered_def)

theorem loadMore_failure_witness:
  "failingWithError (pincode loadedAB, area loadedAB, Some (map name (businesses loadedAB))) =
     Inl (ErrorInstance ''quota exceeded'') \<and>
   hasMore loadedAB \<and>
   error (fst (handleLoadMore failingWithError loadedAB)) = Some ''quota exceeded'' \<and>
   hasMore (fst (handleLoadMore failingWithError loadedAB)) = False \<and>
   businesses (fst (handleLoadMore failingWithError loadedAB)) =
     [business ''A'', business ''B''] \<and>
   sources (fst (handleLoadMore failingWithError loadedAB)) = [source ''x'' ''old'']"
  using loadMore_failure [of failingWithError loadedAB "ErrorInstance ''quota exceeded''"]
  by (simp add: failingWithError_def loadedAB_def)

section \<open>The flag hasMore\<close>

lemma afterFullPage_eq:
  "afterFullPage = typed110001\<lparr>businesses := page 30, hasSearched := True, hasMore := True\<rparr>"
  by (simp add: afterFullPage_def handleSearch_def typed110001_def initialState_def
      searchAccepted_def fullPage_def length_page Let_def)

lemma staleError_eq:
  "staleError =
     typed110001\<lparr>pincode := ''11000'', businesses := page 30, hasSearched := True,
                  hasMore := True, error := Some ''Please enter a valid 6-digit pincode.''\<rparr>"
  by (simp add: staleError_def afterFullPage_eq handleSearch_def typed110001_def
      initialState_def)

lemma afterFailure_eq:
  "afterFailure = loadedAB\<lparr>error := Some ''quota exceeded'', hasMore := False\<rparr>"
  by (simp add: afterFailure_def handleLoadMore_def loadMoreEntered_def Let_def
      failingWithError_def loadedAB_def)

lemma hasMore_searchSettled:
  "hasMore (searchSettled st r) =
     (case r of Inr (results, newSources) \<Rightarrow> length results = 30 | Inl e \<Rightarrow> hasMore st)"
proof (cases r)
  case (Inl e)
  then show ?thesis by simp
next
  case (Inr p)
  then show ?thesis by (cases p) (simp add: Let_def)
qed

lemma hasMore_loadMoreSettled:
  "hasMore (loadMoreSettled closed st r) =
     (case r of Inr (results, newSources) \<Rightarrow> hasMore st \<and> 30 \<le> length results
      | Inl e \<Rightarrow> False)"
proof (cases r)
  case (Inl e)
  then show ?thesis by simp
next
  case (Inr p)
  then show ?thesis by (cases p) (simp add: Let_def not_less)
qed

lemma hasMore_handleSearch:
  "hasMore (fst (handleSearch f st)) =
     (if length (pincode st) \<noteq> 6 then hasMore st
      else case f (pincode st, area st, None) of
             Inr (results, newSources) \<Rightarrow> length results = 30 | Inl e \<Rightarrow> False)"
  by (simp add: handleSearch_def Let_def hasMore_searchSettled searchAccepted_def
      split: sum.splits)

lemma hasMore_handleLoadMore:
  "hasMore (fst (handleLoadMore f st)) =
     (case f (pincode st, area st, Some (map name (businesses st))) of
        Inr (results, newSources) \<Rightarrow> hasMore st \<and> 30 \<le> length results | Inl e \<Rightarrow> False)"
  by (simp add: handleLoadMore_def Let_def hasMore_loadMoreSettled loadMoreEntered_def
      split: sum.splits)

text \<open>
  Claim C6, as stated, fails. A search answered with a full page is followed by a
  load more to which the collaborator gives the same 30 businesses again: none of
  them is new, and \<open>hasMore\<close> stays true, because line 78 counts the
  businesses returned, not the ones that survive the filter.
\<close>

theorem hasMore_new_businesses_counterexample:
  "hasMore afterFullPage \<and>
   fullPage (pincode afterFullPage, area afterFullPage,
             Some (map name (businesses afterFullPage))) = Inr (page 30, []) \<and>
   uniqueNewResults (businesses afterFullPage) (page 30) = [] \<and>
   hasMore (fst (handleLoadMore fullPage afterFullPage))"
  by (simp add: afterFullPage_eq uniqueNewResults_self fullPage_def handleLoadMore_def
      loadMoreEntered_def Let_def length_page)


text \<open>
  Claim C6, amended. After an accepted search \<open>hasMore\<close> is true exactly when
  the search resolved with exactly 30 businesses. After a load more it is true
  exactly when it was true before and the load more resolved with at least 30
  businesses, counted as returned, before the filter. So every search that returns
  another count, every load more that returns fewer than 30 businesses (zero
  included) and every failed request leave it false.
\<close>

theorem hasMore_raw_count:
  "(length (pincode st) = 6 \<longrightarrow>
      hasMore (fst (handleSearch f st)) =
        (\<exists>results newSources.
           f (pincode st, area st, None) = Inr (results, newSources) \<and> length results = 30)) \<and>
   hasMore (fst (handleLoadMore f st)) =
     (hasMore st \<and>
      (\<exists>results newSources.
         f (pincode st, area st, Some (map name (businesses st))) = Inr (results, newSources) \<and>
         30 \<le> length results))"
proof (intro conjI impI)
  assume "length (pincode st) = 6"
  then show "hasMore (fst (handleSearch f st)) =
        (\<exists>results newSources.
           f (pincode st, area st, None) = Inr (results, newSources) \<and> length results = 30)"
    by (auto simp: hasMore_handleSearch split: sum.splits)
next
  show "hasMore (fst (handleLoadMore f st)) =
     (hasMore st \<and>
      (\<exists>results newSources.
         f (pincode st, area st, Some (map name (businesses st))) = Inr (results, newSources) \<and>
         30 \<le> length results))"
    by (auto simp: hasMore_handleLoadMore split: sum.splits)
qed

theorem hasMore_raw_count_witness:
  "length (pincode afterFullPage) = 6 \<and>
   hasMore (fst (handleSearch fullPage afterFullPage)) \<and>
   hasMore (fst (handleLoadMore fullPage afterFullPage))"
  using hasMore_raw_count [of afterFullPage fullPage]
  by (simp add: afterFullPage_eq typed110001_def initialState_def fullPage_def length_page)

text \<open>
  Claim C10. A load more never sets \<open>hasMore\<close> to true: on every path the flag
  afterwards is the flag before or false. In one step of a session the flag goes
  from false to true only if the step is a search with a pincode of length 6 that
  resolved with exactly 30 businesses.
\<close>

theorem loadMore_never_raises_hasMore:
  "hasMore (fst (handleLoadMore f st)) \<in> {hasMore st, False} \<and>
   (\<not> hasMore st \<and> hasMore (step f ev st) \<longrightarrow>
      ev = Search \<and> length (pincode st) = 6 \<and>
      (\<exists>results newSources.
         f (pincode st, area st, None) = Inr (results, newSources) \<and> length results = 30))"
proof -
  have preserved_or_cleared: "hasMore (fst (handleLoadMore f st)) \<in> {hasMore st, False}"
    by (auto simp: hasMore_handleLoadMore split: sum.splits)
  have only_search: "ev = Search \<and> length (pincode st) = 6 \<and>
      (\<exists>results newSources.
         f (pincode st, area st, None) = Inr (results, newSources) \<and> length results = 30)"
    if a: "\<not> hasMore st \<and> hasMore (step f ev st)"
  proof (cases ev)
    case (SetPincode p)
    with a show ?thesis by simp
  next
    case (SetArea a')
    with a show ?thesis by simp
  next
    case Search
    with a show ?thesis
      by (auto simp: hasMore_handleSearch split: sum.splits if_splits)
  next
    case LoadMore
    with a show ?thesis
      by (auto simp: hasMore_handleLoadMore split: sum.splits)
  qed
  from preserved_or_cleared only_search show ?thesis
    by blast
qed

theorem loadMore_never_raises_hasMore_witness:
  "\<not> hasMore typed110001 \<and> hasMore (step fullPage Search typed110001) \<and>
   length (pincode typed110001) = 6 \<and>
   fullPage (pincode typed110001, area typed110001, None) = Inr (page 30, []) \<and>
   length (page 30) = 30 \<and>
   \<not> hasMore (fst (handleLoadMore fullPage typed110001))"
  using loadMore_never_raises_hasMore [of fullPage typed110001 Search]
  by (simp add: typed110001_def initialState_def fullPage_def length_page
      handleSearch_def searchAccepted_def Let_def)

section \<open>What a handler does before its request\<close>

text \<open>
  Claim C9. An accepted search (pincode of length 6) issues one request, and the
  state in force at the request is the old one with \<open>businesses\<close> and
  \<open>sources\<close> empty, \<open>error\<close> none, \<open>hasSearched\<close> true and
  \<open>hasMore\<close> false (and the searching flag set). If the request fails, the
  businesses and the sources are empty afterwards and the error is the message of
  the thrown value if that is an \<^verbatim>\<open>Error\<close>, and "An unknown error occurred."
  otherwise.
\<close>

theorem search_resets_before_request:
  assumes "length (pincode st) = 6"
  shows "snd (handleSearch f st) =
           [((pincode st, area st, None),
             st\<lparr>isLoading := True, error := None, businesses := [], sources := [],
                hasSearched := True, hasMore := False\<rparr>)] \<and>
         (f (pincode st, area st, None) = Inl e \<longrightarrow>
            businesses (fst (handleSearch f st)) = [] \<and>
            sources (fst (handleSearch f st)) = [] \<and>
            error (fst (handleSearch f st)) =
              Some (case e of ErrorInstance m \<Rightarrow> m
                    | NotAnError \<Rightarrow> ''An unknown error occurred.''))"
  using assms
  by (cases e) (simp_all add: handleSearch_def Let_def searchAccepted_def)

theorem search_resets_before_request_witness:
  "length (pincode afterFailure) = 6 \<and>
   failingOtherwise (pincode afterFailure, area afterFailure, None) = Inl NotAnError \<and>
   businesses afterFailure = [business ''A'', business ''B''] \<and>
   sources afterFailure = [source ''x'' ''old''] \<and>
   error afterFailure = Some ''quota exceeded'' \<and>
   snd (handleSearch failingOtherwise afterFailure) =
     [((''110001'', [], None),
       afterFailure\<lparr>isLoading := True, error := None, businesses := [], sources := [],
                     hasSearched := True, hasMore := False\<rparr>)] \<and>
   businesses (fst (handleSearch failingOtherwise afterFailure)) = [] \<and>
   sources (fst (handleSearch failingOtherwise afterFailure)) = [] \<and>
   error (fst (handleSearch failingOtherwise afterFailure)) = Some ''An unknown error occurred.''"
  using search_resets_before_request [of afterFailure failingOtherwise NotAnError]
  by (simp add: afterFailure_eq loadedAB_def failingOtherwise_def)

text \<open>
  Claim C8, as stated, fails: line 57 calls \<^verbatim>\<open>setError(null)\<close> before the
  request, so an error recorded earlier is gone when the request is issued. Here
  the error is the one a rejected search left beside a full page of results.
\<close>

theorem loadMore_keeps_error_counterexample:
  "error staleError = Some ''Please enter a valid 6-digit pincode.'' \<and>
   hasMore staleError \<and>
   map (error \<circ> snd) (snd (handleLoadMore fullPage staleError)) = [None]"
  by (simp add: staleError_eq typed110001_def initialState_def handleLoadMore_def
      loadMoreEntered_def Let_def)

text \<open>
  Claim C8, amended. A load more issues one request, with the names of the current
  businesses as the exclusion list, and the state in force at the request is the old
  one with the load-more pending flag set and the error cleared: the businesses and
  the sources are not touched.
\<close>

theorem loadMore_entry_frame:
  "snd (handleLoadMore f st) =
     [((pincode st, area st, Some (map name (businesses st))),
       st\<lparr>isMoreLoading := True, error := None\<rparr>)]"
  by (simp add: handleLoadMore_def loadMoreEntered_def Let_def)

section \<open>The two sequences\<close>

lemma businesses_handleLoadMore:
  assumes "f (pincode st, area st, Some (map name (businesses st))) = Inr (returned, newSources)"
  shows "businesses (fst (handleLoadMore f st)) =
           businesses st @ filter (\<lambda>b. name b \<notin> name ` set (businesses st)) returned"
  using assms
  by (simp add: handleLoadMore_def Let_def loadMoreEntered_def uniqueNewResults_iff)

lemma sources_handleLoadMore:
  assumes "f (pincode st, area st, Some (map name (businesses st))) = Inr (returned, newSources)"
  shows "sources (fst (handleLoadMore f st)) =
           (if newSources = [] then sources st else mergeSources (sources st) newSources)"
  using assms
  by (simp add: handleLoadMore_def Let_def loadMoreEntered_def)

lemma results_handleSearch:
  assumes "length (pincode st) = 6"
    and "f (pincode st, area st, None) = Inr (results, newSources)"
  shows "businesses (fst (handleSearch f st)) = results"
    and "sources (fst (handleSearch f st)) = newSources"
  using assms by (simp_all add: handleSearch_def Let_def)

lemma mergeSources_example:
  "mergeSources [source ''x'' ''old''] [source ''x'' ''new'', source ''y'' ''y''] =
     [source ''x'' ''new'', source ''y'' ''y'']"
  by (simp add: mergeSources_def new_Map_def Map_values_def source_def)

text \<open>
  Claim C1, as stated, fails on its own example. The sources x/old followed by the
  answer x/new, y/y become x/new, y/y: the \<^verbatim>\<open>Map\<close> of line 74 keeps the place
  of the first entry with a uri and the value of the last one.
\<close>

theorem merge_first_seen_counterexample:
  "sources loadedAB = [source ''x'' ''old''] \<and>
   answerBC (pincode loadedAB, area loadedAB, Some (map name (businesses loadedAB))) =
     Inr ([business ''B'', business ''C''], [source ''x'' ''new'', source ''y'' ''y'']) \<and>
   sources (fst (handleLoadMore answerBC loadedAB)) =
     [source ''x'' ''new'', source ''y'' ''y''] \<and>
   sources (fst (handleLoadMore answerBC loadedAB)) \<noteq>
     [source ''x'' ''old'', source ''y'' ''y'']"
proof -
  have old: "sources loadedAB = [source ''x'' ''old'']"
    by (simp add: loadedAB_def)
  have answer: "answerBC (pincode loadedAB, area loadedAB, Some (map name (businesses loadedAB))) =
     Inr ([business ''B'', business ''C''], [source ''x'' ''new'', source ''y'' ''y''])"
    by (simp add: answerBC_def)
  have merged: "sources (fst (handleLoadMore answerBC loadedAB)) =
          [source ''x'' ''new'', source ''y'' ''y'']"
    using answer sources_handleLoadMore [of answerBC loadedAB "[business ''B'', business ''C'']"
        "[source ''x'' ''new'', source ''y'' ''y'']"]
    by (simp add: old mergeSources_example)
  have differs: "[source ''x'' ''new'', source ''y'' ''y''] \<noteq>
          [source ''x'' ''old'', source ''y'' ''y'']"
    by (simp add: source_def)
  from old answer merged differs show ?thesis
    by simp
qed

text \<open>
  Claim C1, amended. After a load more that resolved with a non-empty list of
  sources, the uris of the sources are those of the existing sources followed by
  the new ones, each uri once and at the place of its first occurrence, and every
  source kept is the last entry with its uri in that concatenated sequence (the
  first one met when the sequence is read backwards): the last-seen title wins.
\<close>

theorem merge_last_seen:
  assumes "f (pincode st, area st, Some (map name (businesses st))) = Inr (newResults, newSources)"
    and "newSources \<noteq> []"
  shows "map uri (sources (fst (handleLoadMore f st))) =
           rev (remdups (rev (map uri (sources st @ newSources)))) \<and>
         (\<forall>s \<in> set (sources (fst (handleLoadMore f st))).
            find (\<lambda>t. uri t = uri s) (rev (sources st @ newSources)) = Some s)"
  using assms
  by (simp add: sources_handleLoadMore [of f st newResults newSources]
      uri_mergeSources last_mergeSources del: map_append rev_append)

theorem merge_last_seen_witness:
  "answerBC (pincode loadedAB, area loadedAB, Some (map name (businesses loadedAB))) =
     Inr ([business ''B'', business ''C''], [source ''x'' ''new'', source ''y'' ''y'']) \<and>
   [source ''x'' ''new'', source ''y'' ''y''] \<noteq> [] \<and>
   sources loadedAB = [source ''x'' ''old''] \<and>
   map uri (sources (fst (handleLoadMore answerBC loadedAB))) = [''x'', ''y''] \<and>
   list_all (\<lambda>s. find (\<lambda>t. uri t = uri s)
                     [source ''y'' ''y'', source ''x'' ''new'', source ''x'' ''old''] = Some s)
     (sources (fst (handleLoadMore answerBC loadedAB)))"
  using merge_last_seen [of answerBC loadedAB "[business ''B'', business ''C'']"
      "[source ''x'' ''new'', source ''y'' ''y'']"]
  by (simp add: answerBC_def loadedAB_def source_def list_all_iff)

text \<open>
  Claim C5, as stated, fails. A search stores the returned lists as they are, so an
  answer that repeats a name and a uri leaves both repeated; and a load more filters
  the answer against the businesses on the screen only, so a name that is new but
  repeated within the answer is appended twice.
\<close>

theorem no_duplicates_counterexample:
  "length (pincode typed110001) = 6 \<and>
   \<not> distinct (map name (businesses (fst (handleSearch repeating typed110001)))) \<and>
   \<not> distinct (map uri (sources (fst (handleSearch repeating typed110001)))) \<and>
   distinct (map name (businesses loadedAB)) \<and>
   \<not> distinct (map name (businesses (fst (handleLoadMore repeating loadedAB))))"
  by (simp add: handleSearch_def handleLoadMore_def Let_def typed110001_def initialState_def
      loadedAB_def repeating_def searchAccepted_def loadMoreEntered_def uniqueNewResults_iff
      business_def source_def)

text \<open>
  Claim C5, amended. After a successful search the businesses and the sources are
  free of duplicates (by name, by uri) exactly when the returned lists are. After a
  successful load more the businesses have no two entries with equal name provided
  neither the businesses before nor the returned businesses had; the sources have
  no two entries with equal uri provided the returned sources are non-empty or the
  sources before had none.
\<close>

theorem no_duplicates_preserved:
  "(length (pincode st) = 6 \<and> f (pincode st, area st, None) = Inr (results, newSources) \<longrightarrow>
      distinct (map name (businesses (fst (handleSearch f st)))) = distinct (map name results) \<and>
      distinct (map uri (sources (fst (handleSearch f st)))) = distinct (map uri newSources)) \<and>
   (f (pincode st, area st, Some (map name (businesses st))) = Inr (results', newSources') \<and>
    distinct (map name (businesses st)) \<and> distinct (map name results') \<longrightarrow>
      distinct (map name (businesses (fst (handleLoadMore f st))))) \<and>
   (f (pincode st, area st, Some (map name (businesses st))) = Inr (results', newSources') \<and>
    (newSources' \<noteq> [] \<or> distinct (map uri (sources st))) \<longrightarrow>
      distinct (map uri (sources (fst (handleLoadMore f st)))))"
proof -
  have search: "distinct (map name (businesses (fst (handleSearch f st)))) = distinct (map name results) \<and>
      distinct (map uri (sources (fst (handleSearch f st)))) = distinct (map uri newSources)"
    if "length (pincode st) = 6 \<and> f (pincode st, area st, None) = Inr (results, newSources)"
    using that results_handleSearch [of st f results newSources] by simp
  have names: "distinct (map name (businesses (fst (handleLoadMore f st))))"
    if "f (pincode st, area st, Some (map name (businesses st))) = Inr (results', newSources') \<and>
        distinct (map name (businesses st)) \<and> distinct (map name results')"
    using that businesses_handleLoadMore [of f st results' newSources']
    by (auto simp: distinct_map_filter) (metis imageI)
  have uris: "distinct (map uri (sources (fst (handleLoadMore f st))))"
    if "f (pincode st, area st, Some (map name (businesses st))) = Inr (results', newSources') \<and>
        (newSources' \<noteq> [] \<or> distinct (map uri (sources st)))"
    using that sources_handleLoadMore [of f st results' newSources']
    by (auto simp: uri_mergeSources simp del: map_append rev_append)
  from search names uris show ?thesis
    by blast
qed

theorem no_duplicates_preserved_witness:
  "length (pincode loadedAB) = 6 \<and>
   answerBC (pincode loadedAB, area loadedAB, None) =
     Inr ([business ''B'', business ''C''], [source ''x'' ''new'', source ''y'' ''y'']) \<and>
   answerBC (pincode loadedAB, area loadedAB, Some (map name (businesses loadedAB))) =
     Inr ([business ''B'', business ''C''], [source ''x'' ''new'', source ''y'' ''y'']) \<and>
   distinct (map name (businesses loadedAB)) \<and>
   distinct (map name [business ''B'', business ''C'']) \<and>
   distinct (map uri [source ''x'' ''new'', source ''y'' ''y'']) \<and>
   [source ''x'' ''new'', source ''y'' ''y''] \<noteq> [] \<and>
   distinct (map name (businesses (fst (handleSearch answerBC loadedAB)))) \<and>
   distinct (map uri (sources (fst (handleSearch answerBC loadedAB)))) \<and>
   distinct (map name (businesses (fst (handleLoadMore answerBC loadedAB)))) \<and>
   distinct (map uri (sources (fst (handleLoadMore answerBC loadedAB))))"
  using no_duplicates_preserved [of loadedAB answerBC "[business ''B'', business ''C'']"
      "[source ''x'' ''new'', source ''y'' ''y'']" "[business ''B'', business ''C'']"
      "[source ''x'' ''new'', source ''y'' ''y'']"]
  by (simp add: answerBC_def loadedAB_def business_def source_def)

end
